theory Spec2Isabelle
  imports Main "HOL-Library.Word"
begin

section \<open>Values shared by the model\<close>

text \<open>
  The module \<^verbatim>\<open>src/weather-station.js\<close> is event driven: every function registers
  listeners or callbacks on the radio adapter (noble) and returns a promise. The model
  below keeps the source's names. Buffers are lists of bytes, JavaScript strings are
  lists of code units below 256, exceptions are values of \<open>error\<close>, and a promise is
  its settlement state.
\<close>

type_synonym byte = "8 word"

datatype error =
    Error string        \<comment> \<open>\<^verbatim>\<open>new Error(message)\<close> created by the module\<close>
  | TypeError           \<comment> \<open>property access on \<^verbatim>\<open>undefined\<close>\<close>
  | RangeError          \<comment> \<open>Buffer read outside the buffer\<close>
  | AdapterError nat    \<comment> \<open>an error object handed over by the adapter\<close>

datatype 'a promise = Pending | Fulfilled 'a | Rejected error

text \<open>\<^verbatim>\<open>resolve\<close> and \<^verbatim>\<open>reject\<close> only act on a promise that is still pending.\<close>

definition settle :: "'a promise \<Rightarrow> 'a promise \<Rightarrow> 'a promise" where
  "settle p outcome = (case p of Pending \<Rightarrow> outcome | _ \<Rightarrow> p)"

text \<open>
  The \<^verbatim>\<open>addresses\<close> argument of \<^verbatim>\<open>scan\<close>, \<^verbatim>\<open>scanForReadings\<close> and \<^verbatim>\<open>getRecord\<close>:
  \<^verbatim>\<open>null\<close> (also the default for a missing argument), an array of strings, or the
  \<^verbatim>\<open>false\<close> that \<^verbatim>\<open>getNormalizedAddresses\<close> can produce.
\<close>

datatype addresses = JNull | JFalse | JArray "string list"

record peripheral =
  address :: "string option"            \<comment> \<open>\<^verbatim>\<open>peripheral.address\<close>, \<open>None\<close> for \<^verbatim>\<open>undefined\<close>\<close>
  localName :: "string option"
  manufacturerData :: "byte list option" \<comment> \<open>\<^verbatim>\<open>peripheral.advertisement.manufacturerData\<close>\<close>

section \<open>Address normalization\<close>

text \<open>
  \<^verbatim>\<open>String.prototype.toLowerCase\<close> on code units below 256: the letters A to Z and the
  Latin-1 capitals U+00C0 to U+00DE (without the multiplication sign U+00D7) move up
  by 32, every other code unit is kept.
\<close>

definition toLowerCase_char :: "char \<Rightarrow> char" where
  "toLowerCase_char c =
     (let n = (of_char c :: nat)
      in if (65 \<le> n \<and> n \<le> 90) \<or> (192 \<le> n \<and> n \<le> 222 \<and> n \<noteq> 215)
         then char_of (n + 32) else c)"

definition toLowerCase :: "string \<Rightarrow> string" where
  "toLowerCase s = map toLowerCase_char s"

text \<open>\<^verbatim>\<open>s.replace(/:/g, '')\<close>\<close>

definition strip_colons :: "string \<Rightarrow> string" where
  "strip_colons s = filter (\<lambda>c. c \<noteq> CHR '':'') s"

text \<open>The arrow function mapped over the list in \<^verbatim>\<open>getNormalizedAddresses\<close>.\<close>

definition normalize_address :: "string \<Rightarrow> string" where
  "normalize_address a = strip_colons (toLowerCase a)"

text \<open>
  \<^verbatim>\<open>addresses && addresses.length > 0 && addresses.map(...)\<close>: a falsy argument is
  returned as it is, an empty array gives \<^verbatim>\<open>false\<close>, any other array is mapped.
\<close>

fun getNormalizedAddresses :: "addresses \<Rightarrow> addresses" where
  "getNormalizedAddresses JNull = JNull"
| "getNormalizedAddresses JFalse = JFalse"
| "getNormalizedAddresses (JArray as) =
     (if length as > 0 then JArray (map normalize_address as) else JFalse)"

text \<open>
  The allow-list test shared by the two discover handlers:
  \<^verbatim>\<open>address = peripheral.address && peripheral.address.replace(/:/g, '')\<close> and then
  \<^verbatim>\<open>if (addresses && addresses.indexOf(address) === -1) return\<close>. An array is truthy
  even when empty; \<^verbatim>\<open>indexOf(undefined)\<close> finds nothing in an array of strings.
\<close>

definition stripped_address :: "peripheral \<Rightarrow> string option" where
  "stripped_address p = map_option strip_colons (address p)"

fun allowed :: "addresses \<Rightarrow> string option \<Rightarrow> bool" where
  "allowed (JArray as) (Some a) = (a \<in> set as)"
| "allowed (JArray as) None = False"
| "allowed JNull _ = True"
| "allowed JFalse _ = True"

text \<open>
  Two address strings that differ only in letter case and in colon separators, as an
  inductive relation independent of the normalization function.
\<close>

inductive same_address :: "string \<Rightarrow> string \<Rightarrow> bool" where
  sa_nil: "same_address [] []"
| sa_colon_left: "same_address s t \<Longrightarrow> same_address (CHR '':'' # s) t"
| sa_colon_right: "same_address s t \<Longrightarrow> same_address s (CHR '':'' # t)"
| sa_letter: "toLowerCase_char c = toLowerCase_char d \<Longrightarrow> same_address s t
               \<Longrightarrow> same_address (c # s) (d # t)"

section \<open>Decoding an advertisement\<close>

definition COMPANY_ID :: nat where
  "COMPANY_ID = 0x4842"

text \<open>
  \<^verbatim>\<open>buf.readUIntLE(offset, byteLength)\<close> and \<^verbatim>\<open>buf.readUInt16LE(offset)\<close>: little endian,
  a \<^verbatim>\<open>RangeError\<close> when the bytes are not all inside the buffer.
\<close>

definition readUIntLE :: "byte list \<Rightarrow> nat \<Rightarrow> nat \<Rightarrow> error + nat" where
  "readUIntLE buf offset byteLength =
     (if offset + byteLength \<le> length buf
      then Inr (foldr (\<lambda>b acc. unat b + 256 * acc) (take byteLength (drop offset buf)) 0)
      else Inl RangeError)"

definition readUInt16LE :: "byte list \<Rightarrow> nat \<Rightarrow> error + nat" where
  "readUInt16LE buf offset = readUIntLE buf offset 2"

text \<open>\<^verbatim>\<open>n.toString(16)\<close>: lowercase digits, no leading zeros, \<^verbatim>\<open>"0"\<close> for zero.\<close>

definition hex_digit :: "nat \<Rightarrow> char" where
  "hex_digit d = ''0123456789abcdef'' ! d"

function toString16 :: "nat \<Rightarrow> string" where
  "toString16 n = (if n < 16 then [hex_digit n] else toString16 (n div 16) @ [hex_digit (n mod 16)])"
  by pat_completeness auto
termination
  by (relation "measure (\<lambda>n. n)") auto

declare toString16.simps [simp del]

text \<open>
  The \<^verbatim>\<open>discoverHandler\<close> of \<^verbatim>\<open>scanForReadings\<close> up to the call of the reading decoder.
  The result is the buffer handed to \<^verbatim>\<open>Reading.parseReadings\<close> (\<open>Some (data.slice(8))\<close>),
  \<open>None\<close> when the handler returns without decoding, or the exception it throws.
  \<open>has_handler\<close> says whether a \<^verbatim>\<open>readingHandler\<close> was passed.
\<close>

definition discoverHandler :: "bool \<Rightarrow> addresses \<Rightarrow> peripheral \<Rightarrow> error + byte list option" where
  "discoverHandler has_handler addrs p =
     (case manufacturerData p of
        None \<Rightarrow> Inl TypeError
      | Some data \<Rightarrow>
          if length data < 9 then Inr None
          else case readUInt16LE data 0 of
            Inl e \<Rightarrow> Inl e
          | Inr company \<Rightarrow>
              if company \<noteq> COMPANY_ID then Inr None
              else
                let addr = stripped_address p;
                    truthy = (case addr of None \<Rightarrow> False | Some a \<Rightarrow> a \<noteq> [])
                in case (if truthy then readUIntLE data 2 6 else Inr 0) of
                     Inl e \<Rightarrow> Inl e
                   | Inr embedded \<Rightarrow>
                       if truthy \<and> Some (toString16 embedded) \<noteq> addr then Inr None
                       else if \<not> allowed addrs addr then Inr None
                       else if has_handler then Inr (Some (drop 8 data))
                       else Inr None)"

text \<open>
  \<^verbatim>\<open>Reading.parseReadings\<close> lives in \<^verbatim>\<open>./reading\<close>, outside this module; it is a
  parameter \<open>parseReadings\<close> of the model, a total function from the payload to the
  finite sequence of readings it yields.
\<close>

definition decoded_readings :: "(byte list \<Rightarrow> 'r list) \<Rightarrow> byte list option \<Rightarrow> 'r list" where
  "decoded_readings parseReadings handed = (case handed of None \<Rightarrow> [] | Some d \<Rightarrow> parseReadings d)"

section \<open>Scanning\<close>

text \<open>
  The adapter is driven by events. One event is one turn of the event loop: the
  listeners run, and then every promise reaction they caused runs before the next event
  is delivered. \<open>StateChange st\<close> is noble's \<^verbatim>\<open>'stateChange'\<close> event, emitted after
  \<^verbatim>\<open>noble.state\<close> has been set to \<open>st\<close>; \<open>PowerOnTimeout\<close> is the 5000 ms timer of
  \<^verbatim>\<open>powerOn\<close>; \<open>ScanStartCallback\<close> is the callback given to \<^verbatim>\<open>noble.startScanning\<close>;
  \<open>ScanStop\<close> is noble's \<^verbatim>\<open>'scanStop'\<close> event, which follows \<^verbatim>\<open>noble.stopScanning()\<close>;
  \<open>ReadTimeout\<close> is the timer of \<^verbatim>\<open>getRecord\<close>.
\<close>

datatype event =
    StateChange string
  | PowerOnTimeout
  | ScanStartCallback "error option"
  | Discover peripheral
  | ScanStop
  | ReadTimeout

text \<open>Calls into the adapter, in the order they are made.\<close>

datatype call =
    StartScanning bool   \<comment> \<open>\<^verbatim>\<open>noble.startScanning([SERVICE_UUID], allowDuplicates, cb)\<close>\<close>
  | StopScanning         \<comment> \<open>\<^verbatim>\<open>noble.stopScanning(...)\<close>\<close>

text \<open>
  Where a scan operation is: waiting in \<^verbatim>\<open>powerOn\<close> (its \<^verbatim>\<open>stateChange\<close> listener and
  timer are registered), waiting for the callback of \<^verbatim>\<open>startScanning\<close>, scanning (the
  \<^verbatim>\<open>discover\<close>, \<^verbatim>\<open>scanStop\<close> and \<^verbatim>\<open>stateChange\<close> listeners are registered), or ended
  (no listener is left).
\<close>

datatype phase = PowerWait | Starting | Scanning | Ended

record noble_session =
  noble_state :: string
  phase :: phase
  calls :: "call list"

datatype station = WeatherStation peripheral

record scan_state = noble_session +
  stations :: "station list"
  discovered :: "station list"   \<comment> \<open>the calls of the caller's \<^verbatim>\<open>discoverHandler\<close>\<close>
  scan_promise :: "station list promise"

text \<open>\<^verbatim>\<open>_discoverHandler\<close> of \<^verbatim>\<open>scan\<close>; \<open>has_handler\<close> says whether a handler was passed.\<close>

definition scan_discoverHandler :: "bool \<Rightarrow> addresses \<Rightarrow> peripheral \<Rightarrow> scan_state \<Rightarrow> scan_state" where
  "scan_discoverHandler has_handler addrs p s =
     (if \<not> allowed addrs (stripped_address p) then s
      else let s1 = s\<lparr>stations := stations s @ [WeatherStation p]\<rparr>
           in if has_handler then s1\<lparr>discovered := discovered s1 @ [WeatherStation p]\<rparr> else s1)"

text \<open>
  \<^verbatim>\<open>scan(discoverHandler, addresses)\<close> up to the first event: \<^verbatim>\<open>powerOn\<close> resolves at once
  when the adapter is powered on, and the scan is requested in the same turn.
\<close>

definition scan :: "string \<Rightarrow> scan_state" where
  "scan st =
     (if st = ''poweredOn''
      then \<lparr>noble_state = st, phase = Starting, calls = [StartScanning False],
            stations = [], discovered = [], scan_promise = Pending\<rparr>
      else \<lparr>noble_state = st, phase = PowerWait, calls = [],
            stations = [], discovered = [], scan_promise = Pending\<rparr>)"

fun scan_step :: "bool \<Rightarrow> addresses \<Rightarrow> event \<Rightarrow> scan_state \<Rightarrow> scan_state" where
  "scan_step h addrs (StateChange st) s =
     (let s1 = s\<lparr>noble_state := st\<rparr>
      in case phase s of
           PowerWait \<Rightarrow>
             if st = ''poweredOn''
             then s1\<lparr>phase := Starting, calls := calls s @ [StartScanning False]\<rparr>
             else s1
         | Scanning \<Rightarrow>
             if st \<noteq> ''poweredOn''
             then s1\<lparr>phase := Ended, calls := calls s @ [StopScanning],
                     scan_promise := settle (scan_promise s)
                                       (Rejected (Error (''State changed to '' @ st)))\<rparr>
             else s1
         | _ \<Rightarrow> s1)"
| "scan_step h addrs PowerOnTimeout s =
     (case phase s of
        PowerWait \<Rightarrow>
          s\<lparr>phase := Ended,
            scan_promise := settle (scan_promise s)
              (Rejected (Error (''Timeout while waiting for power on (state: ''
                                @ noble_state s @ '')'')))\<rparr>
      | _ \<Rightarrow> s)"
| "scan_step h addrs (ScanStartCallback err) s =
     (case phase s of
        Starting \<Rightarrow>
          (case err of
             Some e \<Rightarrow> s\<lparr>phase := Ended, scan_promise := settle (scan_promise s) (Rejected e)\<rparr>
           | None \<Rightarrow> s\<lparr>phase := Scanning\<rparr>)
      | _ \<Rightarrow> s)"
| "scan_step h addrs (Discover p) s =
     (case phase s of Scanning \<Rightarrow> scan_discoverHandler h addrs p s | _ \<Rightarrow> s)"
| "scan_step h addrs ScanStop s =
     (case phase s of
        Scanning \<Rightarrow>
          s\<lparr>phase := Ended, scan_promise := settle (scan_promise s) (Fulfilled (stations s))\<rparr>
      | _ \<Rightarrow> s)"
| "scan_step h addrs ReadTimeout s = s"

definition run_scan :: "bool \<Rightarrow> addresses \<Rightarrow> event list \<Rightarrow> scan_state \<Rightarrow> scan_state" where
  "run_scan h addrs es s = foldl (\<lambda>s e. scan_step h addrs e s) s es"

subsection \<open>Continuous-reading mode\<close>

text \<open>
  Modelled from the spec: the class \<^verbatim>\<open>Reading\<close> of \<^verbatim>\<open>./reading\<close> is not part of this
  module. A reading has a name, the string identifier of the sensor kind, and a value.
\<close>

record reading =
  name :: string
  rvalue :: int

text \<open>
  The caller's \<^verbatim>\<open>readingHandler\<close> works on state \<open>'h\<close> of its own; it returns the new
  state and the adapter calls it made.
\<close>

type_synonym 'h handler = "reading \<Rightarrow> peripheral \<Rightarrow> 'h \<Rightarrow> 'h \<times> call list"

record 'h readings_state = noble_session +
  env :: 'h
  readings_promise :: "unit promise"

text \<open>The \<^verbatim>\<open>for ... of\<close> loop over the decoded readings.\<close>

fun deliver :: "'h handler \<Rightarrow> peripheral \<Rightarrow> reading list \<Rightarrow> 'h \<times> call list \<Rightarrow> 'h \<times> call list" where
  "deliver rh p [] acc = acc"
| "deliver rh p (r # rs) (h, cs) = (let (h', cs') = rh r p h in deliver rh p rs (h', cs @ cs'))"

definition scanForReadings :: "string \<Rightarrow> 'h \<Rightarrow> 'h readings_state" where
  "scanForReadings st h =
     (if st = ''poweredOn''
      then \<lparr>noble_state = st, phase = Starting, calls = [StartScanning True],
            env = h, readings_promise = Pending\<rparr>
      else \<lparr>noble_state = st, phase = PowerWait, calls = [],
            env = h, readings_promise = Pending\<rparr>)"

fun scanForReadings_step ::
  "(byte list \<Rightarrow> reading list) \<Rightarrow> 'h handler option \<Rightarrow> addresses \<Rightarrow> event
     \<Rightarrow> 'h readings_state \<Rightarrow> error + 'h readings_state" where
  "scanForReadings_step parseReadings rh addrs (StateChange st) s =
     (let s1 = s\<lparr>noble_state := st\<rparr>
      in case phase s of
           PowerWait \<Rightarrow>
             if st = ''poweredOn''
             then Inr (s1\<lparr>phase := Starting, calls := calls s @ [StartScanning True]\<rparr>)
             else Inr s1
         | Scanning \<Rightarrow>
             if st \<noteq> ''poweredOn''
             then Inr (s1\<lparr>phase := Ended, calls := calls s @ [StopScanning],
                     readings_promise := settle (readings_promise s)
                                       (Rejected (Error (''State changed to '' @ st)))\<rparr>)
             else Inr s1
         | _ \<Rightarrow> Inr s1)"
| "scanForReadings_step parseReadings rh addrs PowerOnTimeout s =
     (case phase s of
        PowerWait \<Rightarrow>
          Inr (s\<lparr>phase := Ended,
            readings_promise := settle (readings_promise s)
              (Rejected (Error (''Timeout while waiting for power on (state: ''
                                @ noble_state s @ '')'')))\<rparr>)
      | _ \<Rightarrow> Inr s)"
| "scanForReadings_step parseReadings rh addrs (ScanStartCallback err) s =
     (case phase s of
        Starting \<Rightarrow>
          (case err of
             Some e \<Rightarrow> Inr (s\<lparr>phase := Ended,
                               readings_promise := settle (readings_promise s) (Rejected e)\<rparr>)
           | None \<Rightarrow> Inr (s\<lparr>phase := Scanning\<rparr>))
      | _ \<Rightarrow> Inr s)"
| "scanForReadings_step parseReadings rh addrs (Discover p) s =
     (case phase s of
        Scanning \<Rightarrow>
          (case discoverHandler (rh \<noteq> None) addrs p of
             Inl e \<Rightarrow> Inl e
           | Inr handed \<Rightarrow>
               (case rh of
                  None \<Rightarrow> Inr s
                | Some f \<Rightarrow>
                    let (h', cs') = deliver f p (decoded_readings parseReadings handed) (env s, [])
                    in Inr (s\<lparr>env := h', calls := calls s @ cs'\<rparr>)))
      | _ \<Rightarrow> Inr s)"
| "scanForReadings_step parseReadings rh addrs ScanStop s =
     (case phase s of
        Scanning \<Rightarrow>
          Inr (s\<lparr>phase := Ended, readings_promise := settle (readings_promise s) (Fulfilled ())\<rparr>)
      | _ \<Rightarrow> Inr s)"
| "scanForReadings_step parseReadings rh addrs ReadTimeout s = Inr s"

text \<open>A sequence of events; an exception thrown by a listener ends the run.\<close>

fun run :: "('e \<Rightarrow> 's \<Rightarrow> error + 's) \<Rightarrow> 'e list \<Rightarrow> 's \<Rightarrow> error + 's" where
  "run step [] s = Inr s"
| "run step (e # es) s = (case step e s of Inl x \<Rightarrow> Inl x | Inr s' \<Rightarrow> run step es s')"

subsection \<open>Aggregating a record\<close>

text \<open>
  Modelled from the spec: the class \<^verbatim>\<open>Record\<close> of \<^verbatim>\<open>./record\<close> is not part of this
  module. It maps a reading name to the most recently seen reading of that name, kept
  here as a list of pairs with one pair for each name.
\<close>

type_synonym reading_set = "(string \<times> reading) list"

text \<open>
  Modelled from the spec: \<^verbatim>\<open>record.add(reading)\<close> inserts the reading under its name, or
  overwrites the reading stored under that name.
\<close>

fun record_add :: "reading \<Rightarrow> reading_set \<Rightarrow> reading_set" where
  "record_add r [] = [(name r, r)]"
| "record_add r ((k, v) # m) = (if k = name r then (k, r) # m else (k, v) # record_add r m)"

text \<open>Modelled from the spec: \<^verbatim>\<open>record.size\<close> is the number of distinct names present.\<close>

definition record_size :: "reading_set \<Rightarrow> nat" where
  "record_size m = length m"

datatype timer = Armed | Fired | Cleared

definition clearTimeout :: "timer \<Rightarrow> timer" where
  "clearTimeout t = (case t of Armed \<Rightarrow> Cleared | _ \<Rightarrow> t)"

text \<open>What the closures of one \<^verbatim>\<open>getRecord\<close> call share.\<close>

record aggregator =
  timeout :: timer
  readings :: reading_set     \<comment> \<open>\<^verbatim>\<open>record\<close>\<close>
  result :: "reading_set promise"

definition readingHandler :: "string list \<Rightarrow> aggregator handler" where
  "readingHandler includedReadings r p a =
     (if name r \<in> set includedReadings
      then let a1 = a\<lparr>readings := record_add r (readings a)\<rparr>
           in if record_size (readings a1) \<ge> length includedReadings
              then (a1\<lparr>timeout := clearTimeout (timeout a1)\<rparr>, [StopScanning])
              else (a1, [])
      else (a, []))"

definition getRecord :: "string \<Rightarrow> aggregator readings_state" where
  "getRecord st = scanForReadings st \<lparr>timeout = Armed, readings = [], result = Pending\<rparr>"

text \<open>
  The reactions \<^verbatim>\<open>.then(...)\<close> and \<^verbatim>\<open>.catch(...)\<close> on the promise of \<^verbatim>\<open>scanForReadings\<close>;
  they run once, in the turn in which that promise settles.
\<close>

definition then_catch :: "aggregator readings_state \<Rightarrow> aggregator readings_state" where
  "then_catch s =
     (let a = env s
      in case readings_promise s of
           Pending \<Rightarrow> s
         | Fulfilled _ \<Rightarrow>
             s\<lparr>env := a\<lparr>timeout := clearTimeout (timeout a),
                         result := settle (result a) (Fulfilled (readings a))\<rparr>\<rparr>
         | Rejected e \<Rightarrow>
             s\<lparr>env := a\<lparr>timeout := clearTimeout (timeout a),
                         result := settle (result a) (Rejected e)\<rparr>\<rparr>)"

definition getRecord_step ::
  "(byte list \<Rightarrow> reading list) \<Rightarrow> string list \<Rightarrow> addresses \<Rightarrow> event
     \<Rightarrow> aggregator readings_state \<Rightarrow> error + aggregator readings_state" where
  "getRecord_step parseReadings includedReadings addrs e s =
     (case e of
        ReadTimeout \<Rightarrow>
          (if timeout (env s) = Armed
           then Inr (s\<lparr>env := (env s)\<lparr>timeout := Fired\<rparr>, calls := calls s @ [StopScanning]\<rparr>)
           else Inr s)
      | _ \<Rightarrow>
          (case scanForReadings_step parseReadings (Some (readingHandler includedReadings))
                  (getNormalizedAddresses addrs) e s of
             Inl x \<Rightarrow> Inl x
           | Inr s' \<Rightarrow>
               if readings_promise s = Pending \<and> readings_promise s' \<noteq> Pending
               then Inr (then_catch s') else Inr s'))"

section \<open>Commands\<close>

text \<open>
  One call of \<^verbatim>\<open>_write(writeCharacteristic, notifyCharacteristic, data, responseCommand)\<close>:
  whether its \<^verbatim>\<open>dataHandler\<close> is registered on the notify characteristic, whether the
  callback of the transport write is still to come, and the promise it returned.
\<close>

record command =
  payload :: "byte list"
  responseCommand :: byte
  listening :: bool
  awaiting_write :: bool
  response :: "byte list promise"

text \<open>
  The executor of the promise. The listener is registered first, then the write is
  issued. A characteristic that was not found is \<^verbatim>\<open>undefined\<close>: the call on it throws
  inside the executor, which rejects the promise.
\<close>

definition priv_write :: "bool \<Rightarrow> bool \<Rightarrow> byte list \<Rightarrow> byte \<Rightarrow> command" where
  "priv_write has_write_chr has_notify_chr data rc =
     (if \<not> has_notify_chr
      then \<lparr>payload = data, responseCommand = rc, listening = False, awaiting_write = False,
            response = Rejected TypeError\<rparr>
      else if \<not> has_write_chr
      then \<lparr>payload = data, responseCommand = rc, listening = True, awaiting_write = False,
            response = Rejected TypeError\<rparr>
      else \<lparr>payload = data, responseCommand = rc, listening = True, awaiting_write = True,
            response = Pending\<rparr>)"

text \<open>\<^verbatim>\<open>receivedData.readUInt8(0)\<close> throws on an empty buffer.\<close>

definition dataHandler :: "byte list \<Rightarrow> bool \<Rightarrow> command \<Rightarrow> error + command" where
  "dataHandler receivedData isNotification c =
     (if isNotification
      then (case receivedData of
              [] \<Rightarrow> Inl RangeError
            | b # _ \<Rightarrow>
                if b = responseCommand c
                then Inr (c\<lparr>listening := False,
                            response := settle (response c) (Fulfilled receivedData)\<rparr>)
                else Inr c)
      else Inr c)"

text \<open>The notify characteristic emits \<^verbatim>\<open>'data'\<close>: the handler runs if it is registered.\<close>

definition on_data :: "byte list \<Rightarrow> bool \<Rightarrow> command \<Rightarrow> error + command" where
  "on_data receivedData isNotification c =
     (if listening c then dataHandler receivedData isNotification c else Inr c)"

text \<open>The callback of \<^verbatim>\<open>writeCharacteristic.write\<close>; it is called once.\<close>

definition write_callback :: "error option \<Rightarrow> command \<Rightarrow> command" where
  "write_callback err c =
     (if awaiting_write c
      then (case err of
              Some e \<Rightarrow> c\<lparr>awaiting_write := False, listening := False,
                          response := settle (response c) (Rejected e)\<rparr>
            | None \<Rightarrow> c\<lparr>awaiting_write := False\<rparr>)
      else c)"

datatype command_event = Data "byte list" bool | WriteDone "error option"

fun command_step :: "command_event \<Rightarrow> command \<Rightarrow> error + command" where
  "command_step (Data d isNotification) c = on_data d isNotification c"
| "command_step (WriteDone err) c = Inr (write_callback err c)"

section \<open>Connecting\<close>

datatype characteristic = SettingsWrite | SettingsNotify | DataWrite | DataNotify

text \<open>What the session does that is visible outside, in order.\<close>

datatype action =
    Emit string                               \<comment> \<open>\<^verbatim>\<open>this.emit('connecting')\<close>, \<^verbatim>\<open>this.emit('connected')\<close>\<close>
  | EmitWrite "byte list" "error option"      \<comment> \<open>\<^verbatim>\<open>this.emit('write', data, error)\<close>\<close>
  | PeripheralConnect
  | DiscoverCharacteristics
  | Subscribe characteristic
  | Write "byte list"                         \<comment> \<open>\<^verbatim>\<open>settingsWriteCharacteristic.write(data, false, cb)\<close>\<close>

text \<open>
  The link of the promise chain of \<^verbatim>\<open>connect\<close> that is pending; \<open>Settled\<close> when the
  promise returned by \<^verbatim>\<open>connect\<close> is settled.
\<close>

datatype stage = Connecting | GetCharacteristics | SetupListeners | Initialize | Settled

datatype callback = ConnectCb | DiscoverCb | SubscribeSettingsCb | SubscribeNotifyCb

datatype connect_event =
    ConnectCallback "error option"
  | DiscoverCallback "error option" "characteristic list"
  | SubscribeCallback characteristic "error option"
  | WriteCallback nat "error option"      \<comment> \<open>the callback of the write of command number \<open>i\<close>\<close>
  | SettingsData "byte list" bool         \<comment> \<open>\<^verbatim>\<open>'data'\<close> on the settings notify characteristic\<close>
  | Disconnect                            \<comment> \<open>\<^verbatim>\<open>'disconnect'\<close> on the peripheral\<close>

record session =
  stage :: stage
  connect_promise :: "unit promise"
  callbacks :: "callback list"              \<comment> \<open>adapter callbacks not called yet\<close>
  disconnect_handlers :: "stage list"       \<comment> \<open>\<^verbatim>\<open>once('disconnect', ...)\<close> handlers, by owner\<close>
  characteristics :: "characteristic list"  \<comment> \<open>the characteristics found\<close>
  commands :: "command list"                \<comment> \<open>the \<^verbatim>\<open>writeSetting\<close> calls, in order\<close>
  trace :: "action list"

definition disconnected :: error where
  "disconnected = Error ''Peripheral disconnected unexpectedly''"

text \<open>
  \<^verbatim>\<open>reject(e)\<close> on the promise of the stage \<open>st\<close>. That promise is pending exactly while
  the chain is at \<open>st\<close>, and its rejection fails the chain; no function owns \<open>Settled\<close>.
\<close>

definition reject_stage :: "stage \<Rightarrow> error \<Rightarrow> session \<Rightarrow> session" where
  "reject_stage st e s =
     (if stage s = st \<and> st \<noteq> Settled
      then s\<lparr>stage := Settled, connect_promise := Rejected e\<rparr> else s)"

definition priv_getCharacteristics :: "session \<Rightarrow> session" where
  "priv_getCharacteristics s =
     s\<lparr>stage := GetCharacteristics,
       disconnect_handlers := disconnect_handlers s @ [GetCharacteristics],
       callbacks := callbacks s @ [DiscoverCb],
       trace := trace s @ [DiscoverCharacteristics]\<rparr>"

definition priv_setupListeners :: "session \<Rightarrow> session" where
  "priv_setupListeners s =
     (let s1 = s\<lparr>stage := SetupListeners,
                 disconnect_handlers := disconnect_handlers s @ [SetupListeners]\<rparr>
      in if SettingsNotify \<in> set (characteristics s)
         then s1\<lparr>callbacks := callbacks s1 @ [SubscribeSettingsCb],
                 trace := trace s1 @ [Subscribe SettingsNotify]\<rparr>
         else reject_stage SetupListeners TypeError s1)"

definition writeSetting :: "byte list \<Rightarrow> byte \<Rightarrow> session \<Rightarrow> session" where
  "writeSetting data rc s =
     (let c = priv_write (SettingsWrite \<in> set (characteristics s))
                         (SettingsNotify \<in> set (characteristics s)) data rc
      in s\<lparr>commands := commands s @ [c],
           trace := (if awaiting_write c then trace s @ [Write data] else trace s)\<rparr>)"

text \<open>
  The reactions chained in \<^verbatim>\<open>_initialize\<close>. The two middle \<^verbatim>\<open>.then(...)\<close> calls are given
  a promise, not a function, so they pass the outcome of the first command on: the
  chain depends on the first \<^verbatim>\<open>writeSetting\<close> promise only. Its last two links remove
  the disconnect handler and settle the promise of \<^verbatim>\<open>_initialize\<close>; when that promise is
  fulfilled, \<^verbatim>\<open>connect\<close> emits \<^verbatim>\<open>'connected'\<close>.
\<close>

definition initialize_chain :: "session \<Rightarrow> session" where
  "initialize_chain s =
     (case commands s of
        [] \<Rightarrow> s
      | c # _ \<Rightarrow>
          (case response c of
             Pending \<Rightarrow> s
           | Fulfilled _ \<Rightarrow>
               if stage s = Initialize
               then s\<lparr>disconnect_handlers := remove1 Initialize (disconnect_handlers s),
                       stage := Settled, connect_promise := Fulfilled (),
                       trace := trace s @ [Emit ''connected'']\<rparr>
               else s
           | Rejected e \<Rightarrow>
               if stage s = Initialize
               then s\<lparr>disconnect_handlers := remove1 Initialize (disconnect_handlers s),
                       stage := Settled, connect_promise := Rejected e\<rparr>
               else s))"

definition priv_initialize :: "session \<Rightarrow> session" where
  "priv_initialize s =
     (let s0 = s\<lparr>stage := Initialize,
                 disconnect_handlers := disconnect_handlers s @ [Initialize]\<rparr>;
          s1 = writeSetting [0x6, 0x6, 0x30, 0x30, 0x30, 0x30, 0x30, 0x30] 0x80 s0;
          s2 = writeSetting [0x5, 0x6, 0x30, 0x30, 0x30, 0x30, 0x30, 0x30] 0x80 s1;
          s3 = writeSetting [0xaa, 0x2, 0x33, 0xff] 0x80 s2
      in initialize_chain s3)"

text \<open>
  \<^verbatim>\<open>connect()\<close> up to the first event; \<open>connected\<close> says whether
  \<^verbatim>\<open>this.peripheral.state === 'connected'\<close>.
\<close>

definition connect :: "bool \<Rightarrow> session" where
  "connect connected =
     (let s = \<lparr>stage = Connecting, connect_promise = Pending, callbacks = [],
               disconnect_handlers = [], characteristics = [], commands = [],
               trace = [Emit ''connecting'']\<rparr>
      in if connected then priv_getCharacteristics s
         else s\<lparr>callbacks := [ConnectCb], trace := trace s @ [PeripheralConnect]\<rparr>)"

text \<open>The \<^verbatim>\<open>'data'\<close> event reaches the registered handlers in order; a throw ends it.\<close>

fun emit_data :: "byte list \<Rightarrow> bool \<Rightarrow> command list \<Rightarrow> error + command list" where
  "emit_data d n [] = Inr []"
| "emit_data d n (c # cs) =
     (case on_data d n c of
        Inl e \<Rightarrow> Inl e
      | Inr c' \<Rightarrow> (case emit_data d n cs of Inl e \<Rightarrow> Inl e | Inr cs' \<Rightarrow> Inr (c' # cs')))"

fun connect_step :: "connect_event \<Rightarrow> session \<Rightarrow> error + session" where
  "connect_step (ConnectCallback err) s =
     (if ConnectCb \<in> set (callbacks s)
      then let s1 = s\<lparr>callbacks := remove1 ConnectCb (callbacks s)\<rparr>
           in (case err of
                 Some e \<Rightarrow> Inr (reject_stage Connecting e s1)
               | None \<Rightarrow> Inr (if stage s1 = Connecting then priv_getCharacteristics s1 else s1))
      else Inr s)"
| "connect_step (DiscoverCallback err found) s =
     (if DiscoverCb \<in> set (callbacks s)
      then let s1 = s\<lparr>callbacks := remove1 DiscoverCb (callbacks s),
                       disconnect_handlers := remove1 GetCharacteristics (disconnect_handlers s)\<rparr>
           in (case err of
                 Some e \<Rightarrow> Inr (reject_stage GetCharacteristics e s1)
               | None \<Rightarrow>
                   let s2 = s1\<lparr>characteristics := found\<rparr>
                   in Inr (if stage s2 = GetCharacteristics then priv_setupListeners s2 else s2))
      else Inr s)"
| "connect_step (SubscribeCallback SettingsNotify err) s =
     (if SubscribeSettingsCb \<in> set (callbacks s)
      then let s1 = s\<lparr>callbacks := remove1 SubscribeSettingsCb (callbacks s)\<rparr>
           in (case err of
                 Some e \<Rightarrow>
                   Inr (reject_stage SetupListeners e
                          (s1\<lparr>disconnect_handlers :=
                                 remove1 SetupListeners (disconnect_handlers s1)\<rparr>))
               | None \<Rightarrow>
                   if DataNotify \<in> set (characteristics s1)
                   then Inr (s1\<lparr>callbacks := callbacks s1 @ [SubscribeNotifyCb],
                                 trace := trace s1 @ [Subscribe DataNotify]\<rparr>)
                   else Inl TypeError)
      else Inr s)"
| "connect_step (SubscribeCallback DataNotify err) s =
     (if SubscribeNotifyCb \<in> set (callbacks s)
      then let s1 = s\<lparr>callbacks := remove1 SubscribeNotifyCb (callbacks s),
                       disconnect_handlers := remove1 SetupListeners (disconnect_handlers s)\<rparr>
           in (case err of
                 Some e \<Rightarrow> Inr (reject_stage SetupListeners e s1)
               | None \<Rightarrow> Inr (if stage s1 = SetupListeners then priv_initialize s1 else s1))
      else Inr s)"
| "connect_step (SubscribeCallback _ err) s = Inr s"
| "connect_step (WriteCallback i err) s =
     (if i < length (commands s) \<and> awaiting_write (commands s ! i)
      then let c = commands s ! i
           in Inr (initialize_chain
                     (s\<lparr>commands := (commands s)[i := write_callback err c],
                        trace := trace s @ [EmitWrite (payload c) err]\<rparr>))
      else Inr s)"
| "connect_step (SettingsData d n) s =
     (case emit_data d n (commands s) of
        Inl e \<Rightarrow> Inl e
      | Inr cs \<Rightarrow> Inr (initialize_chain (s\<lparr>commands := cs\<rparr>)))"
| "connect_step Disconnect s =
     (let s1 = s\<lparr>disconnect_handlers := []\<rparr>
      in Inr (if stage s \<in> set (disconnect_handlers s) then reject_stage (stage s) disconnected s1
              else s1))"

text \<open>The payloads written to the settings characteristic so far.\<close>

fun written :: "action list \<Rightarrow> byte list list" where
  "written [] = []"
| "written (Write d # as) = d # written as"
| "written (_ # as) = written as"

section \<open>Concrete inputs\<close>

text \<open>Devices and payloads used by the examples below.\<close>

definition station_aabb :: peripheral where
  "station_aabb = \<lparr>address = Some ''aa:bb:cc:dd:ee:ff'', localName = None,
                    manufacturerData = None\<rparr>"

definition anonymous_device :: peripheral where
  "anonymous_device = \<lparr>address = None, localName = None,
       manufacturerData = Some [0x42, 0x48, 1, 2, 3, 4, 5, 6, 0x99]\<rparr>"

definition spoofed_device :: peripheral where
  "spoofed_device = \<lparr>address = Some ''aa:bb:cc:dd:ee:ff'', localName = None,
       manufacturerData = Some [0x42, 0x48, 1, 2, 3, 4, 5, 6, 0x99]\<rparr>"

section \<open>Invariants\<close>

text \<open>While a scan operation has not ended, its promise is pending.\<close>

definition scan_inv :: "scan_state \<Rightarrow> bool" where
  "scan_inv s \<longleftrightarrow> (phase s \<noteq> Ended \<longrightarrow> scan_promise s = Pending)"

definition readings_inv :: "'h readings_state \<Rightarrow> bool" where
  "readings_inv s \<longleftrightarrow> (phase s \<noteq> Ended \<longrightarrow> readings_promise s = Pending)"

subsection \<open>Invariant of the aggregation\<close>

text \<open>
  The record only holds requested names, each once; the promise of \<^verbatim>\<open>getRecord\<close> is
  pending as long as the promise of \<^verbatim>\<open>scanForReadings\<close> is, and it is rejected only
  with the error of that promise.
\<close>

definition agg_ok :: "string list \<Rightarrow> aggregator \<Rightarrow> bool" where
  "agg_ok inc a \<longleftrightarrow> fst ` set (readings a) \<subseteq> set inc \<and> distinct (map fst (readings a))"

definition get_inv :: "string list \<Rightarrow> aggregator readings_state \<Rightarrow> bool" where
  "get_inv inc s \<longleftrightarrow>
     (phase s \<noteq> Ended \<longrightarrow> readings_promise s = Pending)
     \<and> (readings_promise s = Pending \<longrightarrow> result (env s) = Pending)
     \<and> (\<forall>e. result (env s) = Rejected e \<longrightarrow> readings_promise s = Rejected e)
     \<and> agg_ok inc (env s)"

subsection \<open>Inputs of the aggregation examples\<close>

text \<open>
  A device whose advertisement passes the three checks, a decoder that yields one
  temperature reading for every payload, and the states the examples pass through.
\<close>

definition thermo_device :: peripheral where
  "thermo_device = \<lparr>address = Some ''aa:bb:cc:dd:ee:ff'', localName = None,
       manufacturerData = Some [0x42, 0x48, 0xff, 0xee, 0xdd, 0xcc, 0xbb, 0xaa, 0x99]\<rparr>"

definition parse_temperature :: "byte list \<Rightarrow> reading list" where
  "parse_temperature d = [\<lparr>name = ''temperature'', rvalue = 21\<rparr>]"



definition scanning_after_deadline :: "aggregator readings_state" where
  "scanning_after_deadline = \<lparr>noble_state = ''poweredOn'', phase = Scanning,
      calls = [StopScanning, StartScanning True],
      env = \<lparr>timeout = Fired, readings = [], result = Pending\<rparr>, readings_promise = Pending\<rparr>"

subsection \<open>Invariant of the connection\<close>

text \<open>
  While the chain is at \<^verbatim>\<open>_initialize\<close>, its disconnect handler is registered; the
  promise of \<^verbatim>\<open>connect\<close> is pending until the chain is settled.
\<close>

definition conn_inv :: "session \<Rightarrow> bool" where
  "conn_inv s \<longleftrightarrow>
     (stage s = Initialize \<longrightarrow> Initialize \<in> set (disconnect_handlers s))
     \<and> (stage s \<noteq> Settled \<longrightarrow> connect_promise s = Pending)"

subsection \<open>Inputs of the connection examples\<close>

text \<open>
  The first settings command of \<^verbatim>\<open>_initialize\<close> as a pending command; the adapter events
  of a handshake in which every step succeeds and the state it leads to; the state
  after the writes of the second and third command have failed and one notification
  has arrived; the state after a disconnect followed by a late notification.
\<close>

definition first_command :: "command" where
  "first_command = priv_write True True [0x6, 0x6, 0x30, 0x30, 0x30, 0x30, 0x30, 0x30] 0x80"

definition handshake :: "connect_event list" where
  "handshake = [ConnectCallback None,
     DiscoverCallback None [SettingsWrite, SettingsNotify, DataWrite, DataNotify],
     SubscribeCallback SettingsNotify None, SubscribeCallback DataNotify None]"

definition initializing :: session where
  "initializing = \<lparr>stage = Initialize, connect_promise = Pending, callbacks = [],
        disconnect_handlers = [Initialize],
        characteristics = [SettingsWrite, SettingsNotify, DataWrite, DataNotify],
        commands =
          [\<lparr>payload = [0x6, 0x6, 0x30, 0x30, 0x30, 0x30, 0x30, 0x30], responseCommand = 0x80,
              listening = True, awaiting_write = True, response = Pending\<rparr>,
           \<lparr>payload = [0x5, 0x6, 0x30, 0x30, 0x30, 0x30, 0x30, 0x30], responseCommand = 0x80,
              listening = True, awaiting_write = True, response = Pending\<rparr>,
           \<lparr>payload = [0xaa, 0x2, 0x33, 0xff], responseCommand = 0x80,
              listening = True, awaiting_write = True, response = Pending\<rparr>],
        trace =
          [Emit ''connecting'', PeripheralConnect, DiscoverCharacteristics,
           Subscribe SettingsNotify, Subscribe DataNotify,
           Write [0x6, 0x6, 0x30, 0x30, 0x30, 0x30, 0x30, 0x30],
           Write [0x5, 0x6, 0x30, 0x30, 0x30, 0x30, 0x30, 0x30], Write [0xaa, 0x2, 0x33, 0xff]]\<rparr>"

definition connected_after_failures :: session where
  "connected_after_failures = \<lparr>stage = Settled, connect_promise = Fulfilled (), callbacks = [],
        disconnect_handlers = [],
        characteristics = [SettingsWrite, SettingsNotify, DataWrite, DataNotify],
        commands =
          [\<lparr>payload = [0x6, 0x6, 0x30, 0x30, 0x30, 0x30, 0x30, 0x30], responseCommand = 0x80,
              listening = False, awaiting_write = False, response = Fulfilled [0x80]\<rparr>,
           \<lparr>payload = [0x5, 0x6, 0x30, 0x30, 0x30, 0x30, 0x30, 0x30], responseCommand = 0x80,
              listening = False, awaiting_write = False, response = Rejected (AdapterError 7)\<rparr>,
           \<lparr>payload = [0xaa, 0x2, 0x33, 0xff], responseCommand = 0x80,
              listening = False, awaiting_write = False, response = Rejected (AdapterError 7)\<rparr>],
        trace =
          [Emit ''connecting'', PeripheralConnect, DiscoverCharacteristics,
           Subscribe SettingsNotify, Subscribe DataNotify,
           Write [0x6, 0x6, 0x30, 0x30, 0x30, 0x30, 0x30, 0x30],
           Write [0x5, 0x6, 0x30, 0x30, 0x30, 0x30, 0x30, 0x30], Write [0xaa, 0x2, 0x33, 0xff],
           EmitWrite [0x5, 0x6, 0x30, 0x30, 0x30, 0x30, 0x30, 0x30] (Some (AdapterError 7)),
           EmitWrite [0xaa, 0x2, 0x33, 0xff] (Some (AdapterError 7)),
           EmitWrite [0x6, 0x6, 0x30, 0x30, 0x30, 0x30, 0x30, 0x30] None,
           Emit ''connected'']\<rparr>"

definition late_response :: session where
  "late_response = \<lparr>stage = Settled, connect_promise = Rejected disconnected, callbacks = [],
        disconnect_handlers = [],
        characteristics = [SettingsWrite, SettingsNotify, DataWrite, DataNotify],
        commands =
          [\<lparr>payload = [0x6, 0x6, 0x30, 0x30, 0x30, 0x30, 0x30, 0x30], responseCommand = 0x80,
              listening = False, awaiting_write = False, response = Fulfilled [0x80]\<rparr>,
           \<lparr>payload = [0x5, 0x6, 0x30, 0x30, 0x30, 0x30, 0x30, 0x30], responseCommand = 0x80,
              listening = False, awaiting_write = True, response = Fulfilled [0x80]\<rparr>,
           \<lparr>payload = [0xaa, 0x2, 0x33, 0xff], responseCommand = 0x80,
              listening = False, awaiting_write = True, response = Fulfilled [0x80]\<rparr>],
        trace =
          [Emit ''connecting'', PeripheralConnect, DiscoverCharacteristics,
           Subscribe SettingsNotify, Subscribe DataNotify,
           Write [0x6, 0x6, 0x30, 0x30, 0x30, 0x30, 0x30, 0x30],
           Write [0x5, 0x6, 0x30, 0x30, 0x30, 0x30, 0x30, 0x30], Write [0xaa, 0x2, 0x33, 0xff],
           EmitWrite [0x6, 0x6, 0x30, 0x30, 0x30, 0x30, 0x30, 0x30] None]\<rparr>"

text \<open>
  The state after every write was acknowledged and the device has sent a single
  notification, the answer to the first command.
\<close>

definition answered_once :: session where
  "answered_once = \<lparr>stage = Settled, connect_promise = Fulfilled (), callbacks = [],
        disconnect_handlers = [],
        characteristics = [SettingsWrite, SettingsNotify, DataWrite, DataNotify],
        commands =
          [\<lparr>payload = [0x6, 0x6, 0x30, 0x30, 0x30, 0x30, 0x30, 0x30], responseCommand = 0x80,
              listening = False, awaiting_write = False, response = Fulfilled [0x80]\<rparr>,
           \<lparr>payload = [0x5, 0x6, 0x30, 0x30, 0x30, 0x30, 0x30, 0x30], responseCommand = 0x80,
              listening = False, awaiting_write = False, response = Fulfilled [0x80]\<rparr>,
           \<lparr>payload = [0xaa, 0x2, 0x33, 0xff], responseCommand = 0x80,
              listening = False, awaiting_write = False, response = Fulfilled [0x80]\<rparr>],
        trace =
          [Emit ''connecting'', PeripheralConnect, DiscoverCharacteristics,
           Subscribe SettingsNotify, Subscribe DataNotify,
           Write [0x6, 0x6, 0x30, 0x30, 0x30, 0x30, 0x30, 0x30],
           Write [0x5, 0x6, 0x30, 0x30, 0x30, 0x30, 0x30, 0x30], Write [0xaa, 0x2, 0x33, 0xff],
           EmitWrite [0x6, 0x6, 0x30, 0x30, 0x30, 0x30, 0x30, 0x30] None,
           EmitWrite [0x5, 0x6, 0x30, 0x30, 0x30, 0x30, 0x30, 0x30] None,
           EmitWrite [0xaa, 0x2, 0x33, 0xff] None,
           Emit ''connected'']\<rparr>"

section \<open>Properties of normalization\<close>

lemma toLowerCase_char_idem: "toLowerCase_char (toLowerCase_char c) = toLowerCase_char c"
  by (auto simp: toLowerCase_char_def Let_def)

lemma toLowerCase_char_colon: "toLowerCase_char c = CHR '':'' \<longleftrightarrow> c = CHR '':''"
proof
  assume h: "toLowerCase_char c = CHR '':''"
  show "c = CHR '':''"
  proof (rule ccontr)
    assume n: "c \<noteq> CHR '':''"
    with h have up: "(65 \<le> (of_char c :: nat) \<and> (of_char c :: nat) \<le> 90) \<or>
        (192 \<le> (of_char c :: nat) \<and> (of_char c :: nat) \<le> 222 \<and> (of_char c :: nat) \<noteq> 215)"
      by (auto simp: toLowerCase_char_def Let_def split: if_splits)
    with h have "char_of ((of_char c :: nat) + 32) = CHR '':''"
      by (simp add: toLowerCase_char_def Let_def)
    then have "(of_char (char_of ((of_char c :: nat) + 32)) :: nat) = of_char (CHR '':'')"
      by simp
    with up show False by auto
  qed
next
  assume "c = CHR '':''"
  then show "toLowerCase_char c = CHR '':''"
    by (simp add: toLowerCase_char_def Let_def)
qed

lemma normalize_address_idem: "normalize_address (normalize_address a) = normalize_address a"
  by (induction a)
     (auto simp: normalize_address_def strip_colons_def toLowerCase_def
                 toLowerCase_char_idem toLowerCase_char_colon)

lemma same_address_normalize:
  "same_address s t \<Longrightarrow> normalize_address s = normalize_address t"
  by (induction rule: same_address.induct)
     (auto simp: normalize_address_def strip_colons_def toLowerCase_def
                 toLowerCase_char_colon toLowerCase_char_idem)

lemma normalize_address_no_colon: "CHR '':'' \<notin> set (normalize_address a)"
  by (simp add: normalize_address_def strip_colons_def)

lemma normalize_address_lower: "toLowerCase (normalize_address a) = normalize_address a"
  by (induction a)
     (auto simp: normalize_address_def strip_colons_def toLowerCase_def toLowerCase_char_idem)

lemma getNormalizedAddresses_idem:
  "getNormalizedAddresses (getNormalizedAddresses x) = getNormalizedAddresses x"
  by (cases x) (auto simp: normalize_address_idem)

lemma same_addresses_normalized:
  "list_all2 same_address as bs \<Longrightarrow> map normalize_address as = map normalize_address bs"
  by (induction rule: list_all2_induct) (auto dest: same_address_normalize)

lemma same_addresses_getNormalized:
  "list_all2 same_address as bs \<Longrightarrow>
     getNormalizedAddresses (JArray as) = getNormalizedAddresses (JArray bs)"
  using same_addresses_normalized [of as bs] by (auto dest: list_all2_lengthD)

lemma same_address_example: "same_address ''AA:BB:CC:DD:EE:FF'' ''aabbccddeeff''"
  by (intro sa_colon_left sa_letter sa_nil) (simp_all add: toLowerCase_char_def char_of_def bit_0)

text \<open>
  C7, as the code has it. Normalization is idempotent, on one address and on the whole
  argument; its result has no colon and no capital letter; two addresses that differ
  only in letter case and colon separators have the same normal form. \<^verbatim>\<open>getRecord\<close>
  normalizes its allow-list, so two allow-lists that differ in this way only make
  \<^verbatim>\<open>getRecord\<close> react to every event in the same way. The colon is the only separator
  that is removed, and \<^verbatim>\<open>scan\<close> and \<^verbatim>\<open>scanForReadings\<close> use the allow-list they are
  given as it is.
\<close>

theorem normalization_canonical:
  "normalize_address (normalize_address a) = normalize_address a
   \<and> getNormalizedAddresses (getNormalizedAddresses x) = getNormalizedAddresses x
   \<and> CHR '':'' \<notin> set (normalize_address a)
   \<and> toLowerCase (normalize_address a) = normalize_address a
   \<and> (same_address s t \<longrightarrow> normalize_address s = normalize_address t)
   \<and> (list_all2 same_address as bs \<longrightarrow>
        getRecord_step parseReadings included (JArray as) e g
        = getRecord_step parseReadings included (JArray bs) e g)"
proof -
  have "getRecord_step parseReadings included (JArray as) e g
        = getRecord_step parseReadings included (JArray bs) e g"
    if "list_all2 same_address as bs"
    unfolding getRecord_step_def same_addresses_getNormalized [OF that] ..
  then show ?thesis
    by (simp add: normalize_address_idem getNormalizedAddresses_idem normalize_address_no_colon
        normalize_address_lower same_address_normalize)
qed

theorem normalization_canonical_witness:
  "same_address ''AA:BB:CC:DD:EE:FF'' ''aabbccddeeff''
   \<and> list_all2 same_address [''AA:BB:CC:DD:EE:FF''] [''aabbccddeeff'']
   \<and> normalize_address ''AA:BB:CC:DD:EE:FF'' = normalize_address ''aabbccddeeff''
   \<and> getRecord_step (\<lambda>d. []) [''temperature''] (JArray [''AA:BB:CC:DD:EE:FF'']) ScanStop
        (getRecord ''poweredOn'')
     = getRecord_step (\<lambda>d. []) [''temperature''] (JArray [''aabbccddeeff'']) ScanStop
        (getRecord ''poweredOn'')"
  using normalization_canonical [of "''AA:BB:CC:DD:EE:FF''" JNull "''AA:BB:CC:DD:EE:FF''"
      "''aabbccddeeff''" "[''AA:BB:CC:DD:EE:FF'']" "[''aabbccddeeff'']" "\<lambda>d. []"
      "[''temperature'']" ScanStop "getRecord ''poweredOn''"]
    same_address_example
  by simp

text \<open>
  C7 as stated fails for \<^verbatim>\<open>scan\<close>: the two allow-lists below differ only in letter case
  and separators, yet the device aa:bb:cc:dd:ee:ff is reported with the second and
  dropped with the first, because \<^verbatim>\<open>scan\<close> compares the colon-free device address with
  the entries of the list as they were passed.
\<close>

theorem scan_allow_list_counterexample:
  "same_address ''AA:BB:CC:DD:EE:FF'' ''aabbccddeeff''
   \<and> scan_promise (run_scan True (JArray [''aabbccddeeff''])
        [ScanStartCallback None, Discover station_aabb, ScanStop] (scan ''poweredOn''))
     = Fulfilled [WeatherStation station_aabb]
   \<and> scan_promise (run_scan True (JArray [''AA:BB:CC:DD:EE:FF''])
        [ScanStartCallback None, Discover station_aabb, ScanStop] (scan ''poweredOn''))
     = Fulfilled []"
  using same_address_example
  by (simp add: run_scan_def scan_def scan_discoverHandler_def stripped_address_def
      strip_colons_def station_aabb_def settle_def)

section \<open>Properties of the allow-list\<close>


section \<open>Properties of the advertisement decoder\<close>

text \<open>
  An advertisement without manufacturer data: \<^verbatim>\<open>data\<close> is \<^verbatim>\<open>undefined\<close>, and reading
  \<^verbatim>\<open>data.length\<close> throws.
\<close>

lemma discoverHandler_without_data:
  "manufacturerData p = None \<Longrightarrow> discoverHandler h addrs p = Inl TypeError"
  by (simp add: discoverHandler_def)

text \<open>
  C6, as the code has it. For every advertisement that carries manufacturer data, the
  discover handler of \<^verbatim>\<open>scanForReadings\<close> returns without throwing. It hands nothing
  to the reading decoder when that payload has fewer than 9 bytes, when its first two
  bytes read little endian differ from \<open>COMPANY_ID\<close>, or when the device reports a
  non-empty address and bytes 2 to 7, read little endian and written in lowercase
  hexadecimal, differ from that address without its colons. What it hands to the
  decoder is the payload from offset 8, and then the first two checks passed and the
  third passed or was skipped because the device reports no address.
  (\<^verbatim>\<open>toString(16)\<close> writes no leading zeros.)
\<close>

theorem decoder_validation:
  assumes "manufacturerData p = Some data"
  shows "(\<exists>handed. discoverHandler h addrs p = Inr handed)
     \<and> (length data < 9 \<longrightarrow> discoverHandler h addrs p = Inr None)
     \<and> (readUInt16LE data 0 \<noteq> Inr COMPANY_ID \<longrightarrow> discoverHandler h addrs p = Inr None)
     \<and> (stripped_address p = Some a \<and> a \<noteq> [] \<and> readUIntLE data 2 6 = Inr n
          \<and> toString16 n \<noteq> a \<longrightarrow> discoverHandler h addrs p = Inr None)
     \<and> (discoverHandler h addrs p = Inr (Some d) \<longrightarrow>
          d = drop 8 data \<and> 9 \<le> length data \<and> readUInt16LE data 0 = Inr COMPANY_ID
          \<and> (stripped_address p = None \<or> stripped_address p = Some []
              \<or> (\<exists>m. readUIntLE data 2 6 = Inr m \<and> stripped_address p = Some (toString16 m))))
     \<and> decoded_readings parseReadings None = []"
proof (cases "length data < 9")
  case True
  then show ?thesis using assms by (simp add: discoverHandler_def decoded_readings_def)
next
  case False
  then obtain c m where c: "readUInt16LE data 0 = Inr c" and m: "readUIntLE data 2 6 = Inr m"
    by (auto simp: readUInt16LE_def readUIntLE_def)
  show ?thesis using assms False c m
    by (cases "stripped_address p")
       (auto simp: discoverHandler_def decoded_readings_def Let_def split: if_splits)
qed

theorem decoder_validation_witness:
  "manufacturerData spoofed_device = Some [0x42, 0x48, 1, 2, 3, 4, 5, 6, 0x99]
   \<and> stripped_address spoofed_device = Some ''aabbccddeeff''
   \<and> readUIntLE [0x42, 0x48, 1, 2, 3, 4, 5, 6, 0x99] 2 6 = Inr 0x060504030201
   \<and> toString16 0x060504030201 \<noteq> ''aabbccddeeff''
   \<and> discoverHandler True JNull spoofed_device = Inr None"
proof -
  have m: "manufacturerData spoofed_device = Some [0x42, 0x48, 1, 2, 3, 4, 5, 6, 0x99]"
    by (simp add: spoofed_device_def)
  have a: "stripped_address spoofed_device = Some ''aabbccddeeff''"
    by (simp add: spoofed_device_def stripped_address_def strip_colons_def)
  have r: "readUIntLE [0x42, 0x48, 1, 2, 3, 4, 5, 6, 0x99] 2 6 = Inr 0x060504030201"
    by (simp add: readUIntLE_def)
  have t: "toString16 0x060504030201 \<noteq> ''aabbccddeeff''"
    by (simp add: toString16.simps hex_digit_def)
  from decoder_validation [OF m, of True JNull "''aabbccddeeff''" "0x060504030201"] a r t
  have "discoverHandler True JNull spoofed_device = Inr None" by blast
  with m a r t show ?thesis by blast
qed

text \<open>
  C6 as stated fails for a device without an address: the third check is guarded by
  \<^verbatim>\<open>address &&\<close>, so the payload below reaches the decoder although its bytes 2 to 7
  do not render the address of its source.
\<close>

theorem decoder_no_address_counterexample:
  "manufacturerData anonymous_device = Some [0x42, 0x48, 1, 2, 3, 4, 5, 6, 0x99]
   \<and> readUInt16LE [0x42, 0x48, 1, 2, 3, 4, 5, 6, 0x99] 0 = Inr COMPANY_ID
   \<and> readUIntLE [0x42, 0x48, 1, 2, 3, 4, 5, 6, 0x99] 2 6 = Inr 0x060504030201
   \<and> Some (toString16 0x060504030201) \<noteq> stripped_address anonymous_device
   \<and> discoverHandler True JNull anonymous_device = Inr (Some [0x99])"
  by (simp add: anonymous_device_def discoverHandler_def readUInt16LE_def readUIntLE_def
      COMPANY_ID_def stripped_address_def)

section \<open>Properties of scanning\<close>

lemma settle_Pending [simp]: "settle Pending x = x"
  by (simp add: settle_def)

lemma settle_settled: "p \<noteq> Pending \<Longrightarrow> settle p x = p"
  by (cases p) (simp_all add: settle_def)

lemma scan_inv_start: "scan_inv (scan st)"
  by (simp add: scan_inv_def scan_def)

lemma scan_inv_step: "scan_inv s \<Longrightarrow> scan_inv (scan_step h addrs e s)"
  by (cases e; cases "phase s")
     (auto simp: scan_inv_def scan_discoverHandler_def Let_def split: option.splits)

lemma scan_inv_run: "scan_inv s \<Longrightarrow> scan_inv (run_scan h addrs es s)"
  unfolding run_scan_def
  by (induction es arbitrary: s) (simp_all add: scan_inv_step)

lemma readings_inv_start: "readings_inv (scanForReadings st h)"
  by (simp add: readings_inv_def scanForReadings_def)

lemma readings_inv_step:
  "readings_inv s \<Longrightarrow> scanForReadings_step parse rh addrs e s = Inr s' \<Longrightarrow> readings_inv s'"
  by (cases e; cases "phase s")
     (auto simp: readings_inv_def Let_def split: option.splits sum.splits if_splits prod.splits)

lemma run_inv:
  assumes "\<And>e s s'. P s \<Longrightarrow> step e s = Inr s' \<Longrightarrow> P s'"
  shows "P s \<Longrightarrow> run step es s = Inr s' \<Longrightarrow> P s'"
proof (induction es arbitrary: s)
  case Nil
  then show ?case by simp
next
  case (Cons e es)
  then show ?case using assms by (auto split: sum.splits)
qed

text \<open>
  C8. In an active scan session of either mode, that is, once the listeners are
  registered, a \<^verbatim>\<open>stateChange\<close> to a state other than \<^verbatim>\<open>poweredOn\<close> removes the listeners,
  calls \<^verbatim>\<open>noble.stopScanning()\<close> and rejects the operation with the error
  \<^verbatim>\<open>State changed to <state>\<close>; the \<^verbatim>\<open>scanStop\<close> event that follows an explicit stop
  resolves it, with the stations collected by \<^verbatim>\<open>scan\<close> and with no value by
  \<^verbatim>\<open>scanForReadings\<close>.
\<close>

theorem scan_session_end:
  assumes "s = run_scan h addrs es (scan st0)" and "phase s = Scanning"
      and "run (scanForReadings_step parseReadings rh addrs') es' (scanForReadings st1 h0) = Inr r"
      and "phase r = Scanning"
  shows "(st \<noteq> ''poweredOn'' \<longrightarrow>
            scan_step h addrs (StateChange st) s
              = s\<lparr>noble_state := st, phase := Ended, calls := calls s @ [StopScanning],
                  scan_promise := Rejected (Error (''State changed to '' @ st))\<rparr>
          \<and> scanForReadings_step parseReadings rh addrs' (StateChange st) r
              = Inr (r\<lparr>noble_state := st, phase := Ended, calls := calls r @ [StopScanning],
                  readings_promise := Rejected (Error (''State changed to '' @ st))\<rparr>))
       \<and> scan_step h addrs ScanStop s
              = s\<lparr>phase := Ended, scan_promise := Fulfilled (stations s)\<rparr>
       \<and> scanForReadings_step parseReadings rh addrs' ScanStop r
              = Inr (r\<lparr>phase := Ended, readings_promise := Fulfilled ()\<rparr>)"
proof -
  have "scan_inv s"
    using assms(1) scan_inv_run [OF scan_inv_start] by simp
  then have ps: "scan_promise s = Pending"
    using assms(2) by (simp add: scan_inv_def)
  have "readings_inv r"
    using run_inv [where P = readings_inv, OF readings_inv_step readings_inv_start assms(3)] .
  then have pr: "readings_promise r = Pending"
    using assms(4) by (simp add: readings_inv_def)
  show ?thesis
    using assms(2,4) ps pr by simp
qed

theorem scan_session_end_witness:
  "phase (run_scan True JNull [ScanStartCallback None, Discover station_aabb] (scan ''poweredOn''))
     = Scanning
   \<and> run (scanForReadings_step (\<lambda>d. []) None JNull) [StateChange ''poweredOn'', ScanStartCallback None]
       (scanForReadings ''unknown'' ()) =
       Inr \<lparr>noble_state = ''poweredOn'', phase = Scanning, calls = [StartScanning True],
            env = (), readings_promise = Pending\<rparr>
   \<and> scan_promise (scan_step True JNull (StateChange ''poweredOff'')
        (run_scan True JNull [ScanStartCallback None, Discover station_aabb] (scan ''poweredOn'')))
     = Rejected (Error ''State changed to poweredOff'')
   \<and> scan_promise (scan_step True JNull ScanStop
        (run_scan True JNull [ScanStartCallback None, Discover station_aabb] (scan ''poweredOn'')))
     = Fulfilled [WeatherStation station_aabb]
   \<and> scanForReadings_step (\<lambda>d. []) None JNull ScanStop
        \<lparr>noble_state = ''poweredOn'', phase = Scanning, calls = [StartScanning True],
            env = (), readings_promise = Pending\<rparr>
     = Inr \<lparr>noble_state = ''poweredOn'', phase = Ended, calls = [StartScanning True],
            env = (), readings_promise = Fulfilled ()\<rparr>"
proof -
  let ?s = "run_scan True JNull [ScanStartCallback None, Discover station_aabb] (scan ''poweredOn'')"
  let ?r = "\<lparr>noble_state = ''poweredOn'', phase = Scanning, calls = [StartScanning True],
            env = (), readings_promise = Pending\<rparr>"
  have a: "phase ?s = Scanning"
    by (simp add: run_scan_def scan_def scan_discoverHandler_def)
  have st: "stations ?s = [WeatherStation station_aabb]"
    by (simp add: run_scan_def scan_def scan_discoverHandler_def)
  have b: "run (scanForReadings_step (\<lambda>d. []) None JNull)
       [StateChange ''poweredOn'', ScanStartCallback None] (scanForReadings ''unknown'' ()) = Inr ?r"
    by (simp add: scanForReadings_def)
  have c: "phase ?r = Scanning" by simp
  note t = scan_session_end [OF refl a b c, of "''poweredOff''"]
  from t have "scan_promise (scan_step True JNull (StateChange ''poweredOff'') ?s)
     = Rejected (Error ''State changed to poweredOff'')" by simp
  moreover from t st have "scan_promise (scan_step True JNull ScanStop ?s)
     = Fulfilled [WeatherStation station_aabb]" by simp
  moreover from t have "scanForReadings_step (\<lambda>d. []) None JNull ScanStop ?r
     = Inr \<lparr>noble_state = ''poweredOn'', phase = Ended, calls = [StartScanning True],
            env = (), readings_promise = Fulfilled ()\<rparr>" by simp
  ultimately show ?thesis using a b by blast
qed

section \<open>Properties of the aggregation\<close>

lemma record_add_keys: "fst ` set (record_add r m) = insert (name r) (fst ` set m)"
  by (induction r m rule: record_add.induct) auto

lemma agg_ok_update [simp]:
  "agg_ok inc (a\<lparr>timeout := t\<rparr>) = agg_ok inc a"
  "agg_ok inc (a\<lparr>result := x\<rparr>) = agg_ok inc a"
  by (simp_all add: agg_ok_def)

lemma record_add_distinct: "distinct (map fst m) \<Longrightarrow> distinct (map fst (record_add r m))"
proof (induction m)
  case Nil
  then show ?case by simp
next
  case (Cons kv m)
  obtain k v where kv: "kv = (k, v)" by (cases kv)
  from Cons have d: "distinct (map fst (record_add r m))" by simp
  have "k \<notin> fst ` set (record_add r m)" if "k \<noteq> name r"
    using Cons.prems that kv by (simp add: record_add_keys)
  then show ?case using Cons.prems d kv by auto
qed

lemma readingHandler_result: "result (fst (readingHandler inc r p a)) = result a"
  by (simp add: readingHandler_def Let_def)

lemma readingHandler_ok: "agg_ok inc a \<Longrightarrow> agg_ok inc (fst (readingHandler inc r p a))"
  by (auto simp: readingHandler_def Let_def agg_ok_def record_add_keys record_add_distinct)

lemma readingHandler_timer:
  "timeout a \<noteq> Armed \<Longrightarrow> timeout (fst (readingHandler inc r p a)) \<noteq> Armed"
  by (auto simp: readingHandler_def Let_def clearTimeout_def split: timer.splits)


lemma deliver_ok:
  "deliver (readingHandler inc) p rs (a, cs) = (a', cs') \<Longrightarrow>
     result a' = result a \<and> (agg_ok inc a \<longrightarrow> agg_ok inc a')
     \<and> (timeout a \<noteq> Armed \<longrightarrow> timeout a' \<noteq> Armed) \<and> (\<exists>cs''. cs' = cs @ cs'')"
proof (induction rs arbitrary: a cs)
  case Nil
  then show ?case by simp
next
  case (Cons r rs)
  obtain a1 c1 where h: "readingHandler inc r p a = (a1, c1)" by (cases "readingHandler inc r p a")
  with Cons.prems have d: "deliver (readingHandler inc) p rs (a1, cs @ c1) = (a', cs')" by simp
  from Cons.IH [OF d] h readingHandler_result [of inc r p a] readingHandler_ok [of inc a r p]
    readingHandler_timer [of a inc r p]
  show ?case by auto
qed


lemma get_inv_start: "get_inv inc (getRecord st)"
  by (simp add: get_inv_def getRecord_def scanForReadings_def agg_ok_def)

lemma getRecord_step_Discover:
  assumes "phase s = Scanning"
      and "discoverHandler True (getNormalizedAddresses addrs) p = Inr handed"
      and "deliver (readingHandler inc) p (decoded_readings parse handed) (env s, []) = (a', cs')"
  shows "getRecord_step parse inc addrs (Discover p) s = Inr (s\<lparr>env := a', calls := calls s @ cs'\<rparr>)"
  using assms by (simp add: getRecord_step_def)

lemma get_inv_step:
  assumes "get_inv inc s" and "getRecord_step parse inc addrs e s = Inr s'"
  shows "get_inv inc s'"
proof (cases e)
  case (Discover p)
  show ?thesis
  proof (cases "phase s = Scanning")
    case True
    from assms(2) Discover True obtain handed where
      h: "discoverHandler True (getNormalizedAddresses addrs) p = Inr handed"
      by (auto simp: getRecord_step_def split: sum.splits)
    obtain a' cs' where
      d: "deliver (readingHandler inc) p (decoded_readings parse handed) (env s, []) = (a', cs')"
      by (cases "deliver (readingHandler inc) p (decoded_readings parse handed) (env s, [])")
    from getRecord_step_Discover [OF True h d] assms(2) Discover
    have s': "s' = s\<lparr>env := a', calls := calls s @ cs'\<rparr>" by simp
    from deliver_ok [OF d] assms(1) show ?thesis
      by (simp add: s' get_inv_def)
  next
    case False
    with assms Discover show ?thesis
      by (cases "phase s") (auto simp: getRecord_step_def)
  qed
next
  case ReadTimeout
  with assms show ?thesis
    by (auto simp: getRecord_step_def get_inv_def split: if_splits)
next
  case (StateChange st)
  with assms show ?thesis
    by (cases "phase s")
       (auto simp: getRecord_step_def get_inv_def then_catch_def Let_def
             split: if_splits)
next
  case PowerOnTimeout
  with assms show ?thesis
    by (cases "phase s")
       (auto simp: getRecord_step_def get_inv_def then_catch_def Let_def
             split: if_splits)
next
  case (ScanStartCallback err)
  with assms show ?thesis
    by (cases "phase s"; cases err)
       (auto simp: getRecord_step_def get_inv_def then_catch_def Let_def
             split: if_splits)
next
  case ScanStop
  with assms show ?thesis
    by (cases "phase s")
       (auto simp: getRecord_step_def get_inv_def then_catch_def Let_def
             split: if_splits)
qed

lemma get_inv_run:
  assumes "run (getRecord_step parse inc addrs) es (getRecord st) = Inr s"
  shows "get_inv inc s"
proof (rule run_inv [where P = "get_inv inc", OF _ get_inv_start assms])
  fix e s s'
  assume "get_inv inc s" "getRecord_step parse inc addrs e s = Inr s'"
  then show "get_inv inc s'" by (rule get_inv_step)
qed




lemma thermo_handed:
  "discoverHandler True JNull thermo_device = Inr (Some [0x99])"
  by (simp add: thermo_device_def discoverHandler_def readUInt16LE_def readUIntLE_def
      COMPANY_ID_def stripped_address_def strip_colons_def toString16.simps hex_digit_def)


text \<open>
  The deadline during an active scan: \<^verbatim>\<open>stopScan\<close> is called, nothing is rejected, and
  the \<^verbatim>\<open>scanStop\<close> event resolves \<^verbatim>\<open>getRecord\<close> with the record collected so far. A
  rejection of \<^verbatim>\<open>getRecord\<close> always is the rejection of the scan.
\<close>

lemma deadline_while_scanning:
  assumes reach: "run (getRecord_step parseReadings included addrs) es (getRecord st0) = Inr s"
      and active: "phase s = Scanning"
      and armed: "timeout (env s) = Armed"
  shows "getRecord_step parseReadings included addrs ReadTimeout s
           = Inr (s\<lparr>env := (env s)\<lparr>timeout := Fired\<rparr>, calls := calls s @ [StopScanning]\<rparr>)
       \<and> result (env s) = Pending
       \<and> (\<exists>s''. getRecord_step parseReadings included addrs ScanStop
                  (s\<lparr>env := (env s)\<lparr>timeout := Fired\<rparr>, calls := calls s @ [StopScanning]\<rparr>)
                = Inr s''
              \<and> result (env s'') = Fulfilled (readings (env s)) \<and> phase s'' = Ended)"
proof -
  have inv: "get_inv included s" using reach by (rule get_inv_run)
  with active have pend: "readings_promise s = Pending" "result (env s) = Pending"
    by (simp_all add: get_inv_def)
  then show ?thesis using active armed
    by (simp add: getRecord_step_def then_catch_def clearTimeout_def)
qed

lemma rejected_only_by_scan:
  assumes "run (getRecord_step parseReadings included addrs) es (getRecord st0) = Inr s"
      and "result (env s) = Rejected e"
  shows "readings_promise s = Rejected e"
  using get_inv_run [OF assms(1)] assms(2) by (simp add: get_inv_def)

text \<open>
  C4 on a call made before the adapter is powered on, with a deadline that elapses
  first. The timer is armed before \<^verbatim>\<open>powerOn\<close> is awaited. When it fires no scan is
  running: \<^verbatim>\<open>stopScan\<close> is called and no listener of the scan hears the answer. The
  scan starts afterwards, the timer is spent, and the operation stays pending with a
  partial record for as long as the missing reading does not arrive.
\<close>

theorem getRecord_early_deadline:
  "run (getRecord_step parse_temperature [''temperature'', ''humidity''] JNull)
       [ReadTimeout, StateChange ''poweredOn'', ScanStartCallback None] (getRecord ''unknown'')
     = Inr scanning_after_deadline
   \<and> getRecord_step parse_temperature [''temperature'', ''humidity''] JNull ReadTimeout
       scanning_after_deadline = Inr scanning_after_deadline
   \<and> run (getRecord_step parse_temperature [''temperature'', ''humidity''] JNull)
       [Discover thermo_device, ReadTimeout, Discover thermo_device] scanning_after_deadline
     = Inr (scanning_after_deadline\<lparr>env := \<lparr>timeout = Fired,
             readings = [(''temperature'', \<lparr>name = ''temperature'', rvalue = 21\<rparr>)],
             result = Pending\<rparr>\<rparr>)"
  by (simp add: getRecord_def scanForReadings_def getRecord_step_def scanning_after_deadline_def
        thermo_handed decoded_readings_def parse_temperature_def readingHandler_def
        record_size_def clearTimeout_def)

section \<open>Properties of the command channel\<close>

text \<open>
  C9. While a command is pending, a \<^verbatim>\<open>'data'\<close> event settles it if and only if it is
  flagged as a notification and its first byte is the expected response code. The
  handler is then removed and the promise is fulfilled with the whole payload, so that
  no later event changes the command. Any other event leaves the command as it is; an
  empty notification makes \<^verbatim>\<open>readUInt8(0)\<close> throw.
\<close>

theorem notification_matching:
  assumes "listening c" and "response c = Pending"
  shows "(isNotification \<and> d \<noteq> [] \<and> hd d = responseCommand c \<longrightarrow>
            on_data d isNotification c = Inr (c\<lparr>listening := False, response := Fulfilled d\<rparr>)
            \<and> on_data d' n' (c\<lparr>listening := False, response := Fulfilled d\<rparr>)
                = Inr (c\<lparr>listening := False, response := Fulfilled d\<rparr>))
       \<and> (\<not> (isNotification \<and> d \<noteq> [] \<and> hd d = responseCommand c) \<longrightarrow>
            on_data d isNotification c = Inr c \<or> on_data d isNotification c = Inl RangeError)
       \<and> ((\<exists>c'. on_data d isNotification c = Inr c' \<and> response c' \<noteq> Pending)
            \<longleftrightarrow> isNotification \<and> d \<noteq> [] \<and> hd d = responseCommand c)"
  using assms by (cases d) (auto simp: on_data_def dataHandler_def)

theorem notification_matching_witness:
  "listening first_command \<and> response first_command = Pending
   \<and> on_data [0x80, 0x01] True first_command
       = Inr (first_command\<lparr>listening := False, response := Fulfilled [0x80, 0x01]\<rparr>)
   \<and> on_data [0x80, 0x01] False first_command = Inr first_command
   \<and> on_data [0x81, 0x01] True first_command = Inr first_command"
proof -
  have l: "listening first_command" and p: "response first_command = Pending"
    and rc: "responseCommand first_command = 0x80"
    by (simp_all add: first_command_def priv_write_def)
  from notification_matching [OF l p, of True "[0x80, 0x01]"] rc
  have 1: "on_data [0x80, 0x01] True first_command
       = Inr (first_command\<lparr>listening := False, response := Fulfilled [0x80, 0x01]\<rparr>)" by simp
  from notification_matching [OF l p, of False "[0x80, 0x01]"]
  have 2: "on_data [0x80, 0x01] False first_command = Inr first_command"
    by (simp add: on_data_def dataHandler_def)
  from notification_matching [OF l p, of True "[0x81, 0x01]"] rc
  have 3: "on_data [0x81, 0x01] True first_command = Inr first_command"
    by (simp add: on_data_def dataHandler_def)
  from l p 1 2 3 show ?thesis by blast
qed

lemma on_data_not_listening: "\<not> listening c \<Longrightarrow> on_data d n c = Inr c"
  by (simp add: on_data_def)

lemma command_run_idle:
  "\<not> listening c \<Longrightarrow> \<not> awaiting_write c \<Longrightarrow> run command_step evs c = Inr c"
proof (induction evs)
  case Nil
  then show ?case by simp
next
  case (Cons ev evs)
  then show ?case by (cases ev) (simp_all add: on_data_def write_callback_def)
qed

text \<open>
  C3, as the code has it. When the callback of the transport write reports an error,
  the data handler is removed; if the command is still pending it is rejected with that
  error, and if it was settled before it keeps its outcome; and no event that follows, in particular no notification with the expected
  response code, changes the command any more.
\<close>

theorem write_failure:
  assumes "awaiting_write c"
  shows "\<not> listening (write_callback (Some e) c)
       \<and> (response c = Pending \<longrightarrow> response (write_callback (Some e) c) = Rejected e)
       \<and> (response c \<noteq> Pending \<longrightarrow> response (write_callback (Some e) c) = response c)
       \<and> run command_step later (write_callback (Some e) c) = Inr (write_callback (Some e) c)"
proof -
  have "\<not> listening (write_callback (Some e) c)" "\<not> awaiting_write (write_callback (Some e) c)"
    using assms by (simp_all add: write_callback_def)
  then show ?thesis
    using assms command_run_idle [of "write_callback (Some e) c" later]
    by (simp add: write_callback_def settle_settled)
qed

theorem write_failure_witness:
  "awaiting_write first_command \<and> response first_command = Pending
   \<and> response (write_callback (Some (AdapterError 1)) first_command) = Rejected (AdapterError 1)
   \<and> run command_step [Data [0x80, 0x01] True] (write_callback (Some (AdapterError 1)) first_command)
       = Inr (write_callback (Some (AdapterError 1)) first_command)"
proof -
  have a: "awaiting_write first_command" and p: "response first_command = Pending"
    by (simp_all add: first_command_def priv_write_def)
  from write_failure [OF a, of "AdapterError 1" "[Data [0x80, 0x01] True]"] a p
  show ?thesis by blast
qed

text \<open>
  C3 as stated fails when a notification with the expected code is delivered before
  the write callback reports the failure: the promise is already fulfilled, and
  \<^verbatim>\<open>reject\<close> has no effect on it.
\<close>

theorem write_failure_after_response_counterexample:
  "run command_step [Data [0x80, 0x01] True, WriteDone (Some (AdapterError 1))] first_command
     = Inr \<lparr>payload = [0x6, 0x6, 0x30, 0x30, 0x30, 0x30, 0x30, 0x30], responseCommand = 0x80,
            listening = False, awaiting_write = False, response = Fulfilled [0x80, 0x01]\<rparr>"
  by (simp add: first_command_def priv_write_def on_data_def dataHandler_def write_callback_def
      settle_def)

section \<open>Properties of the connection\<close>

lemma handshake_run: "run connect_step handshake (connect False) = Inr initializing"
  by (simp add: handshake_def connect_def initializing_def priv_getCharacteristics_def
      priv_setupListeners_def priv_initialize_def writeSetting_def priv_write_def
      initialize_chain_def Let_def)

text \<open>
  C1 on the code. The arguments \<^verbatim>\<open>this.writeSetting(...)\<close> of the two middle
  \<^verbatim>\<open>.then\<close> calls are evaluated while the chain is built: when the handshake reaches
  \<^verbatim>\<open>_initialize\<close>, all three commands are written before any notification has been
  received. The outcome of the second and the third command is not awaited: their
  writes fail below, and one notification for the first command still completes
  \<^verbatim>\<open>connect\<close> successfully.
\<close>

theorem initialize_not_sequential:
  "run connect_step handshake (connect False) = Inr initializing
   \<and> written (trace initializing)
       = [[0x6, 0x6, 0x30, 0x30, 0x30, 0x30, 0x30, 0x30],
          [0x5, 0x6, 0x30, 0x30, 0x30, 0x30, 0x30, 0x30], [0xaa, 0x2, 0x33, 0xff]]
   \<and> run connect_step [WriteCallback 1 (Some (AdapterError 7)),
         WriteCallback 2 (Some (AdapterError 7)), WriteCallback 0 None,
         SettingsData [0x80] True] initializing = Inr connected_after_failures
   \<and> connect_promise connected_after_failures = Fulfilled ()"
proof -
  have w: "written (trace initializing)
       = [[0x6, 0x6, 0x30, 0x30, 0x30, 0x30, 0x30, 0x30],
          [0x5, 0x6, 0x30, 0x30, 0x30, 0x30, 0x30, 0x30], [0xaa, 0x2, 0x33, 0xff]]"
    by (simp add: initializing_def)
  have r: "run connect_step [WriteCallback 1 (Some (AdapterError 7)),
         WriteCallback 2 (Some (AdapterError 7)), WriteCallback 0 None,
         SettingsData [0x80] True] initializing = Inr connected_after_failures"
    by (simp add: initializing_def connected_after_failures_def write_callback_def
        initialize_chain_def on_data_def dataHandler_def settle_def numeral_2_eq_2)
  show ?thesis using handshake_run w r by (simp add: connected_after_failures_def)
qed

lemma conn_inv_start: "conn_inv (connect c0)"
  by (simp add: conn_inv_def connect_def priv_getCharacteristics_def Let_def)

lemma conn_inv_reject: "conn_inv s \<Longrightarrow> conn_inv (reject_stage st e s)"
  by (simp add: conn_inv_def reject_stage_def)

lemma conn_inv_chain: "conn_inv s \<Longrightarrow> conn_inv (initialize_chain s)"
  by (auto simp: conn_inv_def initialize_chain_def split: list.splits promise.splits)

lemma conn_inv_commands [simp]: "conn_inv (s\<lparr>commands := cs\<rparr>) = conn_inv s"
  "conn_inv (s\<lparr>trace := t\<rparr>) = conn_inv s" "conn_inv (s\<lparr>callbacks := cb\<rparr>) = conn_inv s"
  "conn_inv (s\<lparr>characteristics := ch\<rparr>) = conn_inv s"
  by (simp_all add: conn_inv_def)

lemma conn_inv_writeSetting: "conn_inv s \<Longrightarrow> conn_inv (writeSetting d rc s)"
  by (simp add: writeSetting_def Let_def)

lemma conn_inv_initialize: "conn_inv s \<Longrightarrow> stage s = SetupListeners \<Longrightarrow> conn_inv (priv_initialize s)"
proof -
  assume a: "conn_inv s" "stage s = SetupListeners"
  then have "conn_inv (s\<lparr>stage := Initialize,
                 disconnect_handlers := disconnect_handlers s @ [Initialize]\<rparr>)"
    by (simp add: conn_inv_def)
  then show ?thesis
    unfolding priv_initialize_def Let_def
    by (intro conn_inv_chain conn_inv_writeSetting)
qed

lemma conn_inv_step:
  assumes "conn_inv s" and "connect_step e s = Inr s'"
  shows "conn_inv s'"
proof (cases e)
  case (ConnectCallback err)
  with assms show ?thesis
    by (cases err)
       (auto simp: conn_inv_def reject_stage_def priv_getCharacteristics_def Let_def split: if_splits)
next
  case (DiscoverCallback err found)
  with assms show ?thesis
    by (cases err)
       (auto simp: conn_inv_def reject_stage_def priv_setupListeners_def Let_def
             split: if_splits)
next
  case (SubscribeCallback chr err)
  show ?thesis
  proof (cases chr)
    case SettingsNotify
    with assms SubscribeCallback show ?thesis
      by (cases err) (auto simp: conn_inv_def reject_stage_def Let_def split: if_splits)
  next
    case DataNotify
    show ?thesis
    proof (cases "SubscribeNotifyCb \<in> set (callbacks s)")
      case False
      with assms SubscribeCallback DataNotify show ?thesis by simp
    next
      case True
      let ?s1 = "s\<lparr>callbacks := remove1 SubscribeNotifyCb (callbacks s),
                   disconnect_handlers := remove1 SetupListeners (disconnect_handlers s)\<rparr>"
      have i1: "conn_inv ?s1" using assms(1) by (auto simp: conn_inv_def)
      show ?thesis
      proof (cases err)
        case None
        with assms SubscribeCallback DataNotify True i1 conn_inv_initialize [of ?s1]
        show ?thesis by (auto simp: Let_def split: if_splits)
      next
        case (Some x)
        with assms SubscribeCallback DataNotify True conn_inv_reject [OF i1]
        show ?thesis by auto
      qed
    qed
  next
    case SettingsWrite
    with assms SubscribeCallback show ?thesis by simp
  next
    case DataWrite
    with assms SubscribeCallback show ?thesis by simp
  qed
next
  case (WriteCallback i err)
  with assms conn_inv_chain show ?thesis
    by (auto simp: Let_def split: if_splits)
next
  case (SettingsData d n)
  with assms conn_inv_chain show ?thesis
    by (auto split: sum.splits)
next
  case Disconnect
  with assms show ?thesis
    by (auto simp: conn_inv_def reject_stage_def Let_def split: if_splits)
qed

lemma conn_inv_run:
  assumes "run connect_step es (connect c0) = Inr s"
  shows "conn_inv s"
proof (rule run_inv [where P = conn_inv, OF _ conn_inv_start assms])
  fix e s s'
  assume "conn_inv s" "connect_step e s = Inr s'"
  then show "conn_inv s'" by (rule conn_inv_step)
qed

lemma written_append [simp]: "written (xs @ ys) = written xs @ written ys"
  by (induction xs rule: written.induct) simp_all

lemma initialize_chain_settled: "stage s \<noteq> Initialize \<Longrightarrow> initialize_chain s = s"
  by (simp add: initialize_chain_def split: list.splits promise.splits)

lemma settled_step:
  assumes "stage s = Settled" and "connect_step e s = Inr s'"
  shows "stage s' = Settled \<and> connect_promise s' = connect_promise s
       \<and> written (trace s') = written (trace s)"
proof (cases e)
  case (SubscribeCallback chr err)
  with assms show ?thesis
    by (cases chr; cases err) (auto simp: reject_stage_def Let_def split: if_splits)
next
  case (WriteCallback i err)
  with assms show ?thesis
    by (auto simp: Let_def initialize_chain_settled split: if_splits)
next
  case (SettingsData d n)
  with assms show ?thesis
    by (auto simp: initialize_chain_settled split: sum.splits)
next
  case (ConnectCallback err)
  with assms show ?thesis
    by (cases err) (auto simp: reject_stage_def split: if_splits)
next
  case (DiscoverCallback err found)
  with assms show ?thesis
    by (cases err) (auto simp: reject_stage_def Let_def split: if_splits)
next
  case Disconnect
  with assms show ?thesis
    by (auto simp: reject_stage_def Let_def split: if_splits)
qed

lemma settled_run:
  "stage s = Settled \<Longrightarrow> run connect_step es s = Inr s' \<Longrightarrow>
     stage s' = Settled \<and> connect_promise s' = connect_promise s
       \<and> written (trace s') = written (trace s)"
proof (induction es arbitrary: s)
  case Nil
  then show ?case by simp
next
  case (Cons e es)
  from Cons.prems(2) obtain s1 where s1: "connect_step e s = Inr s1"
    and r: "run connect_step es s1 = Inr s'"
    by (auto split: sum.splits)
  from settled_step [OF Cons.prems(1) s1] Cons.IH [OF _ r] show ?case by simp
qed

text \<open>
  The window in which the chain is at \<^verbatim>\<open>_initialize\<close>. In every state reached from the
  call of \<^verbatim>\<open>connect\<close> in which the promise of \<^verbatim>\<open>_initialize\<close> is pending, the promise of
  \<^verbatim>\<open>connect\<close> is pending, and a disconnect rejects it with the error
  \<^verbatim>\<open>Peripheral disconnected unexpectedly\<close>. Whatever events follow, the promise keeps
  that error and no further command is written to the settings characteristic.
\<close>

lemma disconnect_during_initialize:
  assumes reach: "run connect_step es (connect c0) = Inr s"
      and inflight: "stage s = Initialize"
  shows "connect_promise s = Pending
       \<and> connect_step Disconnect s
           = Inr (s\<lparr>disconnect_handlers := [], stage := Settled,
                    connect_promise := Rejected disconnected\<rparr>)
       \<and> (run connect_step later
             (s\<lparr>disconnect_handlers := [], stage := Settled,
                connect_promise := Rejected disconnected\<rparr>) = Inr s'
            \<longrightarrow> connect_promise s' = Rejected disconnected
                \<and> written (trace s') = written (trace s))"
proof -
  have inv: "conn_inv s" using reach by (rule conn_inv_run)
  with inflight have h: "Initialize \<in> set (disconnect_handlers s)"
    and p: "connect_promise s = Pending"
    by (simp_all add: conn_inv_def)
  let ?s1 = "s\<lparr>disconnect_handlers := [], stage := Settled,
                connect_promise := Rejected disconnected\<rparr>"
  have d: "connect_step Disconnect s = Inr ?s1"
    using inflight h by (simp add: reject_stage_def)
  have "connect_promise s' = Rejected disconnected \<and> written (trace s') = written (trace s)"
    if "run connect_step later ?s1 = Inr s'"
    using settled_run [OF _ that] by simp
  with p d show ?thesis by blast
qed

lemma disconnect_during_initialize_example:
  "run connect_step handshake (connect False) = Inr initializing
   \<and> stage initializing = Initialize
   \<and> run connect_step [Disconnect, WriteCallback 0 None, SettingsData [0x80] True] initializing
       = Inr late_response
   \<and> connect_promise late_response = Rejected disconnected
   \<and> written (trace late_response) = written (trace initializing)"
proof -
  let ?s1 = "initializing\<lparr>disconnect_handlers := [], stage := Settled,
                connect_promise := Rejected disconnected\<rparr>"
  have s: "stage initializing = Initialize" by (simp add: initializing_def)
  have r: "run connect_step [WriteCallback 0 None, SettingsData [0x80] True] ?s1
      = Inr late_response"
    by (simp add: initializing_def late_response_def write_callback_def
        initialize_chain_def on_data_def dataHandler_def settle_def)
  note t = disconnect_during_initialize [OF handshake_run s,
      of "[WriteCallback 0 None, SettingsData [0x80] True]" late_response]
  from t have d: "connect_step Disconnect initializing = Inr ?s1" by blast
  from t r have c: "connect_promise late_response = Rejected disconnected
      \<and> written (trace late_response) = written (trace initializing)" by blast
  from d r have "run connect_step [Disconnect, WriteCallback 0 None, SettingsData [0x80] True]
      initializing = Inr late_response" by simp
  with handshake_run s c show ?thesis by blast
qed

text \<open>
  C2 on the code. The promise of \<^verbatim>\<open>_initialize\<close> follows the first command only, and
  the three data handlers expect the same response code. After the handshake and the
  three write acknowledgements, the single notification that answers the first command
  settles all three commands, removes the disconnect handler and fulfils \<^verbatim>\<open>connect\<close>.
  A disconnect delivered next, before the device has answered the second and the third
  command, finds no handler: \<^verbatim>\<open>connect\<close> stays fulfilled and is not rejected with the
  disconnect error.
\<close>

theorem disconnect_after_first_response:
  "run connect_step handshake (connect False) = Inr initializing
   \<and> run connect_step [WriteCallback 0 None, WriteCallback 1 None, WriteCallback 2 None,
         SettingsData [0x80] True] initializing = Inr answered_once
   \<and> connect_step Disconnect answered_once = Inr answered_once
   \<and> connect_promise answered_once = Fulfilled ()
   \<and> connect_promise answered_once \<noteq> Rejected disconnected"
proof -
  have r: "run connect_step [WriteCallback 0 None, WriteCallback 1 None, WriteCallback 2 None,
         SettingsData [0x80] True] initializing = Inr answered_once"
    by (simp add: initializing_def answered_once_def write_callback_def
        initialize_chain_def on_data_def dataHandler_def settle_def numeral_2_eq_2)
  have d: "connect_step Disconnect answered_once = Inr answered_once"
    by (simp add: answered_once_def)
  show ?thesis using handshake_run r d by (simp add: answered_once_def)
qed

end
